theory Spec2Isabelle
  imports Main
begin

section \<open>Python values, objects and the store\<close>

text \<open>
  The state table of \<^verbatim>\<open>pocs/state/machine.py\<close> is a Python object graph: a dict whose
  entries are strings, \<^verbatim>\<open>None\<close>, lists and further dicts. Lists and dicts are mutable and
  can be reached through several references, so they live in a store; a value is
  \<^verbatim>\<open>None\<close>, a string, or a reference into the store. An address is an index into the
  store and a new object is put at its end.
\<close>

type_synonym addr = nat

datatype pyval = PNone | PStr string | PRef addr

datatype pyobj = OList "pyval list" | ODict "(string \<times> pyval) list"

type_synonym store = "pyobj list"

datatype exn =
    AttributeError | TypeError | KeyError string | AssertionError | UnboundLocalError
  | ImportError | OSError string | InvalidConfig string | NotFound string
  | OtherException string
  | KeyboardInterrupt | SystemExit

text \<open>\<^verbatim>\<open>except Exception\<close> catches every class but the ones directly under
  \<^verbatim>\<open>BaseException\<close>.\<close>

fun is_Exception :: "exn \<Rightarrow> bool" where
  "is_Exception KeyboardInterrupt = False"
| "is_Exception SystemExit = False"
| "is_Exception _ = True"

text \<open>The text that \<^verbatim>\<open>format\<close> prints for an exception: the message it was made with,
  and the key in quotes for a \<^verbatim>\<open>KeyError\<close>. The classes that carry no message in this
  model print as the empty text.\<close>

fun exn_text :: "exn \<Rightarrow> string" where
  "exn_text (KeyError k) = [CHR 0x27] @ k @ [CHR 0x27]"
| "exn_text (OSError s) = s"
| "exn_text (InvalidConfig s) = s"
| "exn_text (NotFound s) = s"
| "exn_text (OtherException s) = s"
| "exn_text _ = ''''"

definition obj_at :: "store \<Rightarrow> pyval \<Rightarrow> pyobj option" where
  "obj_at h v = (case v of PRef a \<Rightarrow> (if a < length h then Some (h ! a) else None)
                 | _ \<Rightarrow> None)"

definition list_at :: "store \<Rightarrow> pyval \<Rightarrow> pyval list option" where
  "list_at h v = (case obj_at h v of Some (OList xs) \<Rightarrow> Some xs | _ \<Rightarrow> None)"

definition dict_at :: "store \<Rightarrow> pyval \<Rightarrow> (string \<times> pyval) list option" where
  "dict_at h v = (case obj_at h v of Some (ODict d) \<Rightarrow> Some d | _ \<Rightarrow> None)"

definition alloc :: "store \<Rightarrow> pyobj \<Rightarrow> store \<times> pyval" where
  "alloc h ob = (h @ [ob], PRef (length h))"

text \<open>\<^verbatim>\<open>d[k] = v\<close>: an existing key keeps its place, a new key goes to the end.\<close>

fun dict_set :: "(string \<times> 'v) list \<Rightarrow> string \<Rightarrow> 'v \<Rightarrow> (string \<times> 'v) list" where
  "dict_set [] k v = [(k, v)]"
| "dict_set ((k', v') # d) k v = (if k' = k then (k, v) # d else (k', v') # dict_set d k v)"

text \<open>Truth value of an object, as \<^verbatim>\<open>if x and ...\<close> tests it.\<close>

definition truthy :: "store \<Rightarrow> pyval \<Rightarrow> bool" where
  "truthy h v = (case v of PNone \<Rightarrow> False | PStr s \<Rightarrow> s \<noteq> []
     | PRef a \<Rightarrow> (case obj_at h v of Some (OList xs) \<Rightarrow> xs \<noteq> []
                  | Some (ODict d) \<Rightarrow> d \<noteq> [] | None \<Rightarrow> True))"

text \<open>What a \<^verbatim>\<open>for\<close> loop over a value visits: the items of a list, the keys of a dict,
  the characters of a string; \<^verbatim>\<open>None\<close> is not iterable.\<close>

definition py_iter :: "store \<Rightarrow> pyval \<Rightarrow> exn + pyval list" where
  "py_iter h v = (case v of PNone \<Rightarrow> Inl TypeError
     | PStr s \<Rightarrow> Inr (map (\<lambda>c. PStr [c]) s)
     | PRef a \<Rightarrow> (case obj_at h v of Some (OList xs) \<Rightarrow> Inr xs
                  | Some (ODict d) \<Rightarrow> Inr (map (\<lambda>kv. PStr (fst kv)) d)
                  | None \<Rightarrow> Inl TypeError))"

text \<open>\<^verbatim>\<open>x[k]\<close> with a string key: only a dict accepts it.\<close>

definition subscript :: "store \<Rightarrow> pyval \<Rightarrow> string \<Rightarrow> exn + pyval" where
  "subscript h v k = (case dict_at h v of None \<Rightarrow> Inl TypeError
     | Some d \<Rightarrow> (case map_of d k of None \<Rightarrow> Inl (KeyError k) | Some x \<Rightarrow> Inr x))"

section \<open>The machine\<close>

datatype log_entry = LogInfo pyval | LogWarning string

text \<open>A function object, known only by its name.\<close>

datatype callable = Callable string

text \<open>
  The fields of \<^verbatim>\<open>PanStateMachine\<close> that the class itself reads and writes.
  \<open>state\<close> is \<^verbatim>\<open>self.state\<close>, which the transitions library owns;
  \<open>next_state\<close>, \<open>is_running\<close>, \<open>state_machine_table\<close> and \<open>state_table_name\<close>
  are the underscore attributes set in \<^verbatim>\<open>__init__\<close>; \<open>bound\<close> holds the
  \<^verbatim>\<open>on_enter_<state>\<close> attributes that \<^verbatim>\<open>_load_state\<close> sets with \<^verbatim>\<open>setattr\<close>;
  \<open>objects\<close> is the store the table lives in; \<open>logged\<close> collects what goes to
  \<^verbatim>\<open>self.logger\<close> at info and warning level (debug lines are left out).
\<close>

record machine =
  state :: string
  next_state :: "string option"
  is_running :: bool
  state_machine_table :: pyval
  state_table_name :: pyval
  bound :: "(string \<times> callable) list"
  objects :: store
  logged :: "log_entry list"

definition stop_machine :: "machine \<Rightarrow> machine" where
  "stop_machine m = m\<lparr>is_running := False\<rparr>"

definition py_of_next :: "string option \<Rightarrow> pyval" where
  "py_of_next n = (case n of None \<Rightarrow> PNone | Some s \<Rightarrow> PStr s)"

text \<open>
  The loop of \<^verbatim>\<open>_lookup_trigger\<close>. \<^verbatim>\<open>and\<close> evaluates its right operand only when the
  left one holds, so \<^verbatim>\<open>state_info['dest']\<close> is read only for a matching source. A list
  or dict is never equal to a string or to \<^verbatim>\<open>None\<close>.
\<close>

fun scan_transitions :: "store \<Rightarrow> string \<Rightarrow> string option \<Rightarrow> pyval list \<Rightarrow> exn + pyval" where
  "scan_transitions h s n [] = Inr (PStr ''parking'')"
| "scan_transitions h s n (state_info # rest) =
     (case subscript h state_info ''source'' of Inl e \<Rightarrow> Inl e
      | Inr src \<Rightarrow>
          if src = PStr s then
            (case subscript h state_info ''dest'' of Inl e \<Rightarrow> Inl e
             | Inr dst \<Rightarrow>
                 if dst = py_of_next n then subscript h state_info ''trigger''
                 else scan_transitions h s n rest)
          else scan_transitions h s n rest)"

definition lookup_trigger :: "machine \<Rightarrow> exn + pyval" where
  "lookup_trigger m =
     (case subscript (objects m) (state_machine_table m) ''transitions'' of Inl e \<Rightarrow> Inl e
      | Inr ts \<Rightarrow> (case py_iter (objects m) ts of Inl e \<Rightarrow> Inl e
          | Inr items \<Rightarrow> scan_transitions (objects m) (state m) (next_state m) items))"

text \<open>
  What \<^verbatim>\<open>caller()\<close> does is code outside the class (a trigger bound by the transitions
  library, or any other attribute of the object): it may change the machine and then
  return (\<open>None\<close>) or raise (\<open>Some e\<close>). The attributes of the object are a
  parameter \<open>A\<close>, from a name to what calling that attribute does; an attribute that is
  not callable is a behaviour that raises \<^verbatim>\<open>TypeError\<close> at once.
\<close>

type_synonym behaviour = "machine \<Rightarrow> exn option \<times> machine"

definition info :: "pyval \<Rightarrow> machine \<Rightarrow> machine" where
  "info v m = m\<lparr>logged := logged m @ [LogInfo v]\<rparr>"

definition warning :: "string \<Rightarrow> machine \<Rightarrow> machine" where
  "warning s m = m\<lparr>logged := logged m @ [LogWarning s]\<rparr>"

text \<open>Lines 97 to 101: \<^verbatim>\<open>hasattr\<close> of a name that is not a string raises
  \<^verbatim>\<open>TypeError\<close>, and \<^verbatim>\<open>self.park\<close> raises \<^verbatim>\<open>AttributeError\<close> when there is no such
  attribute; both are outside the \<^verbatim>\<open>try\<close>.\<close>

definition select_caller ::
  "(string \<Rightarrow> behaviour option) \<Rightarrow> pyval \<Rightarrow> machine \<Rightarrow> exn + behaviour \<times> machine" where
  "select_caller A call_method m =
     (let park = (case A ''park'' of None \<Rightarrow> Inl AttributeError
                  | Some b \<Rightarrow> Inr (b, warning ''No valid state given, parking'' m))
      in if truthy (objects m) call_method then
           (case call_method of
              PStr name \<Rightarrow> (case A name of Some b \<Rightarrow> Inr (b, m) | None \<Rightarrow> park)
            | _ \<Rightarrow> Inl TypeError)
         else park)"

text \<open>The \<^verbatim>\<open>while self.is_running\<close> loop. It need not end, so its value is an option:
  \<open>None\<close> is a loop that runs forever, \<open>Some (Inl e)\<close> an exception that leaves
  \<^verbatim>\<open>run\<close>, \<open>Some (Inr m)\<close> a normal return with the machine as it then is.\<close>

partial_function (option) run_loop ::
  "(string \<Rightarrow> behaviour option) \<Rightarrow> machine \<Rightarrow> (exn + machine) option" where
  "run_loop A m =
     (if is_running m then
        (case lookup_trigger m of Inl e \<Rightarrow> Some (Inl e)
         | Inr call_method \<Rightarrow>
             (case select_caller A call_method (info call_method m) of Inl e \<Rightarrow> Some (Inl e)
              | Inr (caller, m1) \<Rightarrow>
                  (case caller m1 of
                     (None, m2) \<Rightarrow> run_loop A m2
                   | (Some e, m2) \<Rightarrow>
                       if is_Exception e then
                         run_loop A (stop_machine
                           (warning (''Problem calling next state: '' @ exn_text e) m2))
                       else Some (Inl e))))
      else Some (Inr m))"

declare run_loop.simps [code]

definition run :: "(string \<Rightarrow> behaviour option) \<Rightarrow> machine \<Rightarrow> (exn + machine) option" where
  "run A m = run_loop A (m\<lparr>is_running := True, next_state := Some ''ready''\<rparr>)"

section \<open>Loading the state table\<close>

text \<open>
  What lies outside the class is a parameter of the model. \<open>getenv_POCS\<close> is the
  value of the environment variable; \<open>read_yaml\<close> is what opening, reading and
  parsing a file gives: an \<^verbatim>\<open>OSError\<close>, any other exception, or the parsed value
  with the objects it is made of; \<open>resolve_name\<close> is astropy's function of that name;
  \<open>connect_db\<close> is the exception of \<^verbatim>\<open>PanMongo()\<close>, if it raises;
  \<open>machine_init\<close> is \<^verbatim>\<open>Machine.__init__\<close> of the transitions library, which
  raises or gives the state the machine starts in; \<open>repr_object\<close> is the text that
  \<^verbatim>\<open>format\<close> prints for a list or dict.
\<close>

datatype read_result = ReadOSError string | ReadOtherError | Parsed store pyval

text \<open>
  \<^verbatim>\<open>listify\<close> is imported from \<^verbatim>\<open>pocs/utils\<close>, whose source is not at hand. A call
  either hands back the object it was given or builds a new list, so it is a parameter
  that says which of the two it does, and with which items.
\<close>

datatype listified = Same | Fresh "pyval list"

record py_module =
  mod_attrs :: "(string \<times> callable) list"

text \<open>\<^verbatim>\<open>State\<close> of the transitions library: a name and the enter callbacks, by name.\<close>

record state_obj =
  name :: pyval
  on_enter :: "string list"

record world =
  getenv_POCS :: "string option"
  read_yaml :: "string \<Rightarrow> read_result"
  listify :: "store \<Rightarrow> pyval \<Rightarrow> listified"
  resolve_name :: "string \<Rightarrow> exn + py_module"
  connect_db :: "exn option"
  machine_init :: "store \<Rightarrow> state_obj option list \<Rightarrow> pyval list \<Rightarrow> pyval \<Rightarrow> exn + string"
  repr_object :: "store \<Rightarrow> pyval \<Rightarrow> string"

definition state_table_file :: "world \<Rightarrow> string \<Rightarrow> string" where
  "state_table_file w table_id =
     (case getenv_POCS w of None \<Rightarrow> ''/var/panoptes/POCS'' | Some d \<Rightarrow> d)
       @ ''/resources/state_table/'' @ table_id @ ''.yaml''"

definition load_state_table :: "world \<Rightarrow> string \<Rightarrow> exn + store \<times> pyval" where
  "load_state_table w table_id =
     (case read_yaml w (state_table_file w table_id) of
        ReadOSError err \<Rightarrow>
          Inl (InvalidConfig (''Problem loading state table yaml file: '' @ err @ '' ''
                 @ state_table_file w table_id))
      | ReadOtherError \<Rightarrow>
          Inl (InvalidConfig (''Problem loading state table yaml file: ''
                 @ state_table_file w table_id))
      | Parsed h state_table \<Rightarrow> Inr (h, state_table))"

fun is_substring :: "string \<Rightarrow> string \<Rightarrow> bool" where
  "is_substring p [] = (p = [])"
| "is_substring p (c # s) = (take (length p) (c # s) = p \<or> is_substring p s)"

text \<open>\<^verbatim>\<open>k in v\<close> for a string \<open>k\<close>: a key of a dict, an item of a list, a part of a
  string; \<^verbatim>\<open>None\<close> raises.\<close>

definition py_contains :: "store \<Rightarrow> string \<Rightarrow> pyval \<Rightarrow> exn + bool" where
  "py_contains h k v = (case v of PNone \<Rightarrow> Inl TypeError
     | PStr s \<Rightarrow> Inr (is_substring k s)
     | PRef a \<Rightarrow> (case obj_at h v of Some (ODict d) \<Rightarrow> Inr (map_of d k \<noteq> None)
                  | Some (OList xs) \<Rightarrow> Inr (PStr k \<in> set xs)
                  | None \<Rightarrow> Inl TypeError))"

definition py_format :: "world \<Rightarrow> store \<Rightarrow> pyval \<Rightarrow> string" where
  "py_format w h v = (case v of PStr s \<Rightarrow> s | PNone \<Rightarrow> ''None'' | PRef a \<Rightarrow> repr_object w h v)"

section \<open>Loading a transition\<close>

text \<open>The operations on objects that \<^verbatim>\<open>_load_transition\<close> uses.
  \<^verbatim>\<open>d.get(k, [])\<close> needs a dict; the default is a new list each time the call is
  made (it is put into the store only when it is the result).\<close>

definition get_or_new_list :: "store \<Rightarrow> pyval \<Rightarrow> string \<Rightarrow> exn + store \<times> pyval" where
  "get_or_new_list h t k =
     (case dict_at h t of None \<Rightarrow> Inl AttributeError
      | Some d \<Rightarrow> Inr (case map_of d k of Some v \<Rightarrow> (h, v) | None \<Rightarrow> alloc h (OList [])))"

definition call_listify ::
  "(store \<Rightarrow> pyval \<Rightarrow> listified) \<Rightarrow> store \<Rightarrow> pyval \<Rightarrow> store \<times> pyval" where
  "call_listify L h v = (case L h v of Same \<Rightarrow> (h, v) | Fresh xs \<Rightarrow> alloc h (OList xs))"

text \<open>\<^verbatim>\<open>l.insert(0, x)\<close> changes the list where it is; only a list has the method.\<close>

definition insert_first :: "store \<Rightarrow> pyval \<Rightarrow> pyval \<Rightarrow> exn + store" where
  "insert_first h l x =
     (case l of
        PRef r \<Rightarrow> (case list_at h l of None \<Rightarrow> Inl AttributeError
                   | Some xs \<Rightarrow> Inr (h[r := OList (x # xs)]))
      | _ \<Rightarrow> Inl AttributeError)"

text \<open>\<^verbatim>\<open>t[k] = v\<close> changes the dict where it is.\<close>

definition set_item :: "store \<Rightarrow> pyval \<Rightarrow> string \<Rightarrow> pyval \<Rightarrow> exn + store" where
  "set_item h t k v =
     (case t of
        PRef a \<Rightarrow> (case dict_at h t of None \<Rightarrow> Inl TypeError
                   | Some d \<Rightarrow> Inr (h[a := ODict (dict_set d k v)]))
      | _ \<Rightarrow> Inl TypeError)"

text \<open>
  \<^verbatim>\<open>_load_transition\<close>, lines 238 to 248: the condition list is what \<^verbatim>\<open>listify\<close> gives
  for the entry of the transition, \<^verbatim>\<open>'check_safety'\<close> is inserted at its front, the list
  is stored in the transition, and the transition that came in is returned.
\<close>

definition load_transition ::
  "(store \<Rightarrow> pyval \<Rightarrow> listified) \<Rightarrow> store \<Rightarrow> pyval \<Rightarrow> exn + store \<times> pyval" where
  "load_transition L h transition =
     (case get_or_new_list h transition ''conditions'' of Inl e \<Rightarrow> Inl e
      | Inr (h1, got) \<Rightarrow>
          (case call_listify L h1 got of
             (h2, conditions) \<Rightarrow>
               (case insert_first h2 conditions (PStr ''check_safety'') of Inl e \<Rightarrow> Inl e
                | Inr h3 \<Rightarrow>
                    (case set_item h3 transition ''conditions'' conditions of Inl e \<Rightarrow> Inl e
                     | Inr h4 \<Rightarrow> Inr (h4, transition)))))"

text \<open>The comprehension of line 39. It visits the items the list has when it starts, as
  Python does whenever the list is not changed while it is visited; what is proved
  about construction is proved for the tables in which it is not.\<close>

fun load_transitions ::
  "(store \<Rightarrow> pyval \<Rightarrow> listified) \<Rightarrow> store \<Rightarrow> pyval list \<Rightarrow> exn + store \<times> pyval list" where
  "load_transitions L h [] = Inr (h, [])"
| "load_transitions L h (transition # rest) =
     (case load_transition L h transition of Inl e \<Rightarrow> Inl e
      | Inr (h1, t) \<Rightarrow>
          (case load_transitions L h1 rest of Inl e \<Rightarrow> Inl e
           | Inr (h2, ts) \<Rightarrow> Inr (h2, t # ts)))"

section \<open>Loading a state\<close>

definition load_module :: "world \<Rightarrow> string \<Rightarrow> exn + py_module" where
  "load_module w module_name =
     (case resolve_name w module_name of
        Inl ImportError \<Rightarrow> Inl (NotFound module_name)
      | Inl e \<Rightarrow> Inl e
      | Inr module \<Rightarrow> Inr module)"

text \<open>
  The \<^verbatim>\<open>try\<close> block of \<^verbatim>\<open>_load_state\<close>, lines 216 to 231. Its result is the exception
  that ended it, if one did, the \<^verbatim>\<open>on_enter_...\<close> attributes of the object, and the
  local variable \<^verbatim>\<open>s\<close>: \<open>None\<close> while nothing has been assigned to it,
  \<open>Some None\<close> for \<^verbatim>\<open>None\<close>, \<open>Some (Some x)\<close> for a \<^verbatim>\<open>State\<close>.
\<close>

definition load_state_try ::
  "world \<Rightarrow> store \<Rightarrow> pyval \<Rightarrow> (string \<times> callable) list \<Rightarrow> pyval
     \<Rightarrow> exn option \<times> (string \<times> callable) list \<times> state_obj option option" where
  "load_state_try w h table_name attrs st =
     (case load_module w (''pocs.state.states.'' @ py_format w h table_name @ ''.''
                            @ py_format w h st) of
        Inl e \<Rightarrow> (Some e, attrs, None)
      | Inr state_module \<Rightarrow>
          (case map_of (mod_attrs state_module) ''on_enter'' of
             None \<Rightarrow> (None, attrs, Some None)
           | Some on_enter_method \<Rightarrow>
               (None,
                dict_set attrs (''on_enter_'' @ py_format w h st) on_enter_method,
                Some (Some \<lparr>name = st,
                   on_enter = [''_update_graph'', ''_update_status'',
                               ''on_enter_'' @ py_format w h st]\<rparr>))))"

text \<open>
  \<^verbatim>\<open>_load_state\<close>: the handler logs an \<^verbatim>\<open>Exception\<close> and goes on; then
  \<^verbatim>\<open>return s\<close> reads the local variable, which raises \<^verbatim>\<open>UnboundLocalError\<close> when
  nothing was assigned to it.
\<close>

definition load_state ::
  "world \<Rightarrow> store \<Rightarrow> pyval \<Rightarrow> (string \<times> callable) list \<times> log_entry list \<Rightarrow> pyval
     \<Rightarrow> exn + ((string \<times> callable) list \<times> log_entry list) \<times> state_obj option" where
  "load_state w h table_name self st =
     (case load_state_try w h table_name (fst self) st of
        (exc, attrs, s) \<Rightarrow>
          (case (case exc of
                   None \<Rightarrow> Inr (snd self)
                 | Some e \<Rightarrow>
                     if is_Exception e then
                       Inr (snd self @ [LogWarning (''Can't load state modules: ''
                              @ py_format w h st @ [CHR 0x09] @ exn_text e)])
                     else Inl e) of
             Inl e \<Rightarrow> Inl e
           | Inr lg \<Rightarrow>
               (case s of None \<Rightarrow> Inl UnboundLocalError
                | Some result \<Rightarrow> Inr ((attrs, lg), result))))"

fun load_states ::
  "world \<Rightarrow> store \<Rightarrow> pyval \<Rightarrow> (string \<times> callable) list \<times> log_entry list \<Rightarrow> pyval list
     \<Rightarrow> exn + ((string \<times> callable) list \<times> log_entry list) \<times> state_obj option list" where
  "load_states w h table_name self [] = Inr (self, [])"
| "load_states w h table_name self (st # rest) =
     (case load_state w h table_name self st of Inl e \<Rightarrow> Inl e
      | Inr (self1, s) \<Rightarrow>
          (case load_states w h table_name self1 rest of Inl e \<Rightarrow> Inl e
           | Inr (self2, ss) \<Rightarrow> Inr (self2, s # ss)))"

section \<open>Construction\<close>

text \<open>The two \<^verbatim>\<open>assert\<close> statements of lines 29 and 30.\<close>

definition check_keys :: "store \<Rightarrow> pyval \<Rightarrow> exn + unit" where
  "check_keys h table =
     (case py_contains h ''states'' table of Inl e \<Rightarrow> Inl e
      | Inr has_states \<Rightarrow>
          if \<not> has_states then Inl AssertionError
          else (case py_contains h ''transitions'' table of Inl e \<Rightarrow> Inl e
                | Inr has_transitions \<Rightarrow>
                    if \<not> has_transitions then Inl AssertionError else Inr ()))"

text \<open>
  Lines 29 to 57 of \<^verbatim>\<open>__init__\<close>, for a table that is at hand. An exception at any
  step leaves no machine. \<^verbatim>\<open>get\<close> needs a dict. The comprehensions visit the items
  their list has when they start, as Python does whenever the list is not changed while
  it is visited.
\<close>

definition init_table :: "world \<Rightarrow> log_entry list \<Rightarrow> store \<Rightarrow> pyval \<Rightarrow> exn + machine" where
  "init_table w lg h table =
     (case check_keys h table of Inl e \<Rightarrow> Inl e
      | Inr _ \<Rightarrow>
     (case connect_db w of Some e \<Rightarrow> Inl e
      | None \<Rightarrow>
     (case dict_at h table of None \<Rightarrow> Inl AttributeError
      | Some d \<Rightarrow>
     (case subscript h table ''transitions'' of Inl e \<Rightarrow> Inl e
      | Inr tv \<Rightarrow>
     (case py_iter h tv of Inl e \<Rightarrow> Inl e
      | Inr raw \<Rightarrow>
     (case load_transitions (listify w) h raw of Inl e \<Rightarrow> Inl e
      | Inr (h1, transitions) \<Rightarrow>
     (case dict_at h1 table of None \<Rightarrow> Inl AttributeError
      | Some d1 \<Rightarrow>
     (case (case map_of d1 ''states'' of None \<Rightarrow> Inr [] | Some sv \<Rightarrow> py_iter h1 sv) of
        Inl e \<Rightarrow> Inl e
      | Inr names \<Rightarrow>
     (let table_name = (case map_of d ''name'' of None \<Rightarrow> PStr ''default'' | Some v \<Rightarrow> v)
      in case load_states w h1 table_name ([], lg) names of Inl e \<Rightarrow> Inl e
         | Inr ((attrs, lg1), states) \<Rightarrow>
     (case machine_init w h1 states transitions
             (case map_of d1 ''initial'' of None \<Rightarrow> PNone | Some v \<Rightarrow> v) of
        Inl e \<Rightarrow> Inl e
      | Inr initial \<Rightarrow>
          Inr \<lparr>state = initial, next_state = None, is_running = False,
               state_machine_table = table, state_table_name = table_name,
               bound = attrs, objects = h1, logged = lg1\<rparr>))))))))))"

text \<open>\<^verbatim>\<open>__init__\<close>: a string names a table to load, anything else is the table.\<close>

definition init :: "world \<Rightarrow> store \<Rightarrow> pyval \<Rightarrow> exn + machine" where
  "init w h table_arg =
     (case table_arg of
        PStr table_id \<Rightarrow>
          (case load_state_table w table_id of Inl e \<Rightarrow> Inl e
           | Inr (h', table) \<Rightarrow>
               init_table w [LogInfo (PStr (''Loading state table: '' @ table_id))] h' table)
      | _ \<Rightarrow> init_table w [] h table_arg)"

section \<open>Enter callbacks\<close>

text \<open>
  \<open>draw\<close> is the body of the \<^verbatim>\<open>try\<close> in \<^verbatim>\<open>_update_graph\<close> (drawing and linking the
  file), \<open>status\<close> is \<^verbatim>\<open>self.status()\<close>, \<open>call\<close> is what calling a function object
  does. Each may change the machine and return, or raise.
\<close>

record hooks =
  draw :: behaviour
  status :: behaviour
  call :: "callable \<Rightarrow> behaviour"

definition update_graph :: "hooks \<Rightarrow> behaviour" where
  "update_graph k m =
     (case draw k m of
        (None, m1) \<Rightarrow> (None, m1)
      | (Some e, m1) \<Rightarrow>
          if is_Exception e then
            (None, warning (''Can't generate state graph: '' @ exn_text e) m1)
          else (Some e, m1))"

definition update_status :: "hooks \<Rightarrow> behaviour" where
  "update_status k m = status k m"

text \<open>A callback is registered by name and looked up on the machine when it is due.\<close>

definition callback :: "hooks \<Rightarrow> string \<Rightarrow> behaviour" where
  "callback k cb m =
     (if cb = ''_update_graph'' then update_graph k m
      else if cb = ''_update_status'' then update_status k m
      else (case map_of (bound m) cb of None \<Rightarrow> (Some AttributeError, m)
            | Some f \<Rightarrow> call k f m))"

text \<open>
  Entering a state: the transitions library calls the callbacks of the state one after
  the other, in the order in which \<^verbatim>\<open>add_callback\<close> registered them, and an exception
  of one of them ends the sequence, as it does for any sequence of Python calls with no
  handler around them. The second component lists the callbacks that were called.
\<close>

fun enter :: "hooks \<Rightarrow> string list \<Rightarrow> machine \<Rightarrow> (exn option \<times> machine) \<times> string list" where
  "enter k [] m = ((None, m), [])"
| "enter k (cb # rest) m =
     (case callback k cb m of
        (Some e, m1) \<Rightarrow> ((Some e, m1), [cb])
      | (None, m1) \<Rightarrow> (case enter k rest m1 of (r, called) \<Rightarrow> (r, cb # called)))"

section \<open>Well-formed transitions\<close>

text \<open>A transition of the table is an object with the three entries that
  \<^verbatim>\<open>_lookup_trigger\<close> reads; it matches a pair when the two comparisons of line 182 hold.\<close>

definition has_key :: "store \<Rightarrow> pyval \<Rightarrow> string \<Rightarrow> bool" where
  "has_key h t k = (case subscript h t k of Inl e \<Rightarrow> False | Inr v \<Rightarrow> True)"

definition wf_transition :: "store \<Rightarrow> pyval \<Rightarrow> bool" where
  "wf_transition h t = (has_key h t ''source'' \<and> has_key h t ''dest'' \<and> has_key h t ''trigger'')"

definition matches :: "store \<Rightarrow> string \<Rightarrow> string option \<Rightarrow> pyval \<Rightarrow> bool" where
  "matches h s n t =
     (subscript h t ''source'' = Inr (PStr s) \<and> subscript h t ''dest'' = Inr (py_of_next n))"

section \<open>Condition lists and what a table shares\<close>

text \<open>
  \<open>listed_conditions\<close> is the list object that a transition of the given table names
  as its conditions, if it names one; \<open>cond_ref\<close> and \<open>conditions_of\<close> are the
  address and the items of the condition list of a transition; \<open>safety_first\<close> says
  that this list starts with \<^verbatim>\<open>'check_safety'\<close>. \<open>keeps_items\<close> says of \<^verbatim>\<open>listify\<close>
  that, given a list, it hands it back or builds a list of the same items.
\<close>

definition listed_conditions :: "store \<Rightarrow> pyval \<Rightarrow> addr list" where
  "listed_conditions h t =
     (case subscript h t ''conditions'' of
        Inr (PRef c) \<Rightarrow> (case list_at h (PRef c) of Some xs \<Rightarrow> [c] | None \<Rightarrow> [])
      | _ \<Rightarrow> [])"

definition keeps_items :: "(store \<Rightarrow> pyval \<Rightarrow> listified) \<Rightarrow> bool" where
  "keeps_items L = (\<forall>h v xs. list_at h v = Some xs \<longrightarrow> L h v = Same \<or> L h v = Fresh xs)"











section \<open>A small table\<close>

text \<open>
  One way \<^verbatim>\<open>listify\<close> can behave, the usual one for a function of that name: a list is
  handed back as it is, \<^verbatim>\<open>None\<close> gives an empty list, any other value a list of that one
  item.
\<close>

definition listify_in_place :: "store \<Rightarrow> pyval \<Rightarrow> listified" where
  "listify_in_place h v =
     (case list_at h v of Some xs \<Rightarrow> Same | None \<Rightarrow> Fresh (if v = PNone then [] else [v]))"

text \<open>
  A table with three states and three transitions, two of them for the same pair of
  states, as the objects that reading it from a file gives; the world in which the file
  \<^verbatim>\<open>simple_state_table.yaml\<close> holds it; and the machine built from it.
\<close>

definition simple_store :: store where
  "simple_store =
     [OList [PStr ''sleeping'', PStr ''ready'', PStr ''parking''],
      OList [PStr ''is_dark''],
      ODict [(''trigger'', PStr ''get_ready''), (''source'', PStr ''sleeping''),
             (''dest'', PStr ''ready''), (''conditions'', PRef 1)],
      ODict [(''trigger'', PStr ''park''), (''source'', PStr ''ready''),
             (''dest'', PStr ''parking'')],
      ODict [(''trigger'', PStr ''abort''), (''source'', PStr ''ready''),
             (''dest'', PStr ''parking'')],
      OList [PRef 2, PRef 3, PRef 4],
      ODict [(''states'', PRef 0), (''transitions'', PRef 5), (''initial'', PStr ''sleeping'')]]"

definition simple_world :: world where
  "simple_world =
     \<lparr>getenv_POCS = None,
      read_yaml = (\<lambda>f. if f = ''/var/panoptes/POCS/resources/state_table/simple_state_table.yaml''
                       then Parsed simple_store (PRef 6) else ReadOSError ''No such file''),
      listify = listify_in_place,
      resolve_name = (\<lambda>n. if n \<in> {''pocs.state.states.default.sleeping'',
                                   ''pocs.state.states.default.ready'',
                                   ''pocs.state.states.default.parking''}
                          then Inr \<lparr>mod_attrs = [(''on_enter'', Callable (n @ ''.on_enter''))]\<rparr>
                          else Inl ImportError),
      connect_db = None,
      machine_init = (\<lambda>h states transitions initial.
                        case initial of PStr s \<Rightarrow> Inr s | _ \<Rightarrow> Inr ''initial''),
      repr_object = (\<lambda>h v. ''[...]'')\<rparr>"

definition built_store :: store where
  "built_store =
     [OList [PStr ''sleeping'', PStr ''ready'', PStr ''parking''],
      OList [PStr ''check_safety'', PStr ''is_dark''],
      ODict [(''trigger'', PStr ''get_ready''), (''source'', PStr ''sleeping''),
             (''dest'', PStr ''ready''), (''conditions'', PRef 1)],
      ODict [(''trigger'', PStr ''park''), (''source'', PStr ''ready''),
             (''dest'', PStr ''parking''), (''conditions'', PRef 7)],
      ODict [(''trigger'', PStr ''abort''), (''source'', PStr ''ready''),
             (''dest'', PStr ''parking''), (''conditions'', PRef 8)],
      OList [PRef 2, PRef 3, PRef 4],
      ODict [(''states'', PRef 0), (''transitions'', PRef 5), (''initial'', PStr ''sleeping'')],
      OList [PStr ''check_safety''],
      OList [PStr ''check_safety'']]"

definition simple_machine :: machine where
  "simple_machine =
     \<lparr>state = ''sleeping'', next_state = None, is_running = False,
      state_machine_table = PRef 6, state_table_name = PStr ''default'',
      bound = [(''on_enter_sleeping'', Callable ''pocs.state.states.default.sleeping.on_enter''),
               (''on_enter_ready'', Callable ''pocs.state.states.default.ready.on_enter''),
               (''on_enter_parking'', Callable ''pocs.state.states.default.parking.on_enter'')],
      objects = built_store,
      logged = [LogInfo (PStr ''Loading state table: simple_state_table'')]\<rparr>"

text \<open>Triggers for that machine: one pair that runs the sequence to its end, and one
  in which \<^verbatim>\<open>get_ready\<close> fails after the state has changed, as a trigger does when an
  enter callback of the new state raises.\<close>

definition get_ready :: behaviour where
  "get_ready m = (None, m\<lparr>state := ''ready'', next_state := Some ''parking''\<rparr>)"

definition park :: behaviour where
  "park m = (None, stop_machine (m\<lparr>state := ''parking''\<rparr>))"

definition simple_attrs :: "string \<Rightarrow> behaviour option" where
  "simple_attrs attr =
     (if attr = ''get_ready'' then Some get_ready else if attr = ''park'' then Some park else None)"

definition get_ready_failing :: behaviour where
  "get_ready_failing m = (Some (OtherException ''mount not responding''), m\<lparr>state := ''ready''\<rparr>)"

definition faulty_attrs :: "string \<Rightarrow> behaviour option" where
  "faulty_attrs attr =
     (if attr = ''get_ready'' then Some get_ready_failing
      else if attr = ''park'' then Some park else None)"

definition end_machine :: machine where
  "end_machine =
     simple_machine\<lparr>state := ''parking'', next_state := Some ''parking'',
       logged := logged simple_machine @ [LogInfo (PStr ''get_ready''), LogInfo (PStr ''park'')]\<rparr>"

definition faulted_machine :: machine where
  "faulted_machine =
     simple_machine\<lparr>state := ''ready'', next_state := Some ''ready'',
       logged := logged simple_machine @ [LogInfo (PStr ''get_ready''),
         LogWarning ''Problem calling next state: mount not responding'']\<rparr>"

text \<open>A file that parses to a table with no \<^verbatim>\<open>states\<close> entry, a world in which every
  module is found but none has an \<^verbatim>\<open>on_enter\<close>, and hooks that fail.\<close>

definition keyless_store :: store where
  "keyless_store = [OList [], ODict [(''transitions'', PRef 0)]]"

definition keyless_world :: world where
  "keyless_world = simple_world\<lparr>read_yaml := (\<lambda>f. Parsed keyless_store (PRef 1))\<rparr>"

definition bare_world :: world where
  "bare_world = simple_world\<lparr>resolve_name := (\<lambda>n. Inr \<lparr>mod_attrs = []\<rparr>)\<rparr>"

definition failing_hooks :: hooks where
  "failing_hooks =
     \<lparr>draw = (\<lambda>m. (Some (OSError ''Read-only file system''), m)),
      status = (\<lambda>m. (Some (OtherException ''no weather data''), m)),
      call = (\<lambda>f m. (None, m))\<rparr>"



section \<open>Evaluation of the small table\<close>

lemmas store_defs = subscript_def dict_at_def list_at_def obj_at_def py_iter_def truthy_def

lemma lookup_simple:
  "objects m = built_store \<Longrightarrow> state_machine_table m = PRef 6 \<Longrightarrow>
   lookup_trigger m =
     scan_transitions built_store (state m) (next_state m) [PRef 2, PRef 3, PRef 4]"
  by (simp add: lookup_trigger_def store_defs built_store_def)


section \<open>Stopping the machine\<close>

text \<open>
  C9. \<^verbatim>\<open>stop_machine()\<close> sets the running flag to \<open>False\<close> and changes nothing else:
  the current state, the next state, the stored table, its name, the bound callbacks,
  every object of the table and the log are as before; a second call changes nothing.
\<close>

theorem stop_machine_frame:
  "is_running (stop_machine m) = False
   \<and> state (stop_machine m) = state m
   \<and> next_state (stop_machine m) = next_state m
   \<and> state_machine_table (stop_machine m) = state_machine_table m
   \<and> state_table_name (stop_machine m) = state_table_name m
   \<and> bound (stop_machine m) = bound m
   \<and> objects (stop_machine m) = objects m
   \<and> logged (stop_machine m) = logged m
   \<and> machine.more (stop_machine m) = machine.more m
   \<and> stop_machine (stop_machine m) = stop_machine m"
  by (simp add: stop_machine_def)

section \<open>Trigger lookup\<close>

lemma scan_no_match:
  "list_all (wf_transition h) items \<Longrightarrow> list_all (\<lambda>t. \<not> matches h s n t) items \<Longrightarrow>
   scan_transitions h s n items = Inr (PStr ''parking'')"
  by (induction items)
     (auto simp: wf_transition_def has_key_def matches_def split: sum.splits)

lemma scan_first_match:
  "list_all (wf_transition h) pre \<Longrightarrow> list_all (\<lambda>t. \<not> matches h s n t) pre \<Longrightarrow>
   matches h s n t \<Longrightarrow>
   scan_transitions h s n (pre @ t # post) = subscript h t ''trigger''"
  by (induction pre)
     (auto simp: wf_transition_def has_key_def matches_def split: sum.splits)

lemma py_iter_list: "list_at h ts = Some items \<Longrightarrow> py_iter h ts = Inr items"
  by (auto simp: py_iter_def list_at_def obj_at_def split: pyval.splits option.splits pyobj.splits)

text \<open>
  C3. When the table is a dict whose \<^verbatim>\<open>transitions\<close> entry is a list of well-formed
  transitions and none of them has both the current state as source and the wanted
  state as destination, the lookup gives \<^verbatim>\<open>'parking'\<close>. Nothing is asked of the
  wanted state: it may be a name that the table does not declare, or \<^verbatim>\<open>None\<close>.
\<close>

theorem lookup_unmatched_is_parking:
  assumes "subscript (objects m) (state_machine_table m) ''transitions'' = Inr ts"
    and "list_at (objects m) ts = Some items"
    and "list_all (wf_transition (objects m)) items"
    and "list_all (\<lambda>t. \<not> matches (objects m) (state m) (next_state m) t) items"
  shows "lookup_trigger m = Inr (PStr ''parking'')"
  using assms by (simp add: lookup_trigger_def py_iter_list scan_no_match)

theorem lookup_unmatched_is_parking_witness:
  "lookup_trigger (simple_machine\<lparr>next_state := Some ''observing''\<rparr>) = Inr (PStr ''parking'')
   \<and> PStr ''observing'' \<notin> set [PStr ''sleeping'', PStr ''ready'', PStr ''parking'']"
proof -
  let ?m = "simple_machine\<lparr>next_state := Some ''observing''\<rparr>"
  have 1: "subscript (objects ?m) (state_machine_table ?m) ''transitions'' = Inr (PRef 5)"
    by (simp add: simple_machine_def store_defs built_store_def)
  have 2: "list_at (objects ?m) (PRef 5) = Some [PRef 2, PRef 3, PRef 4]"
    by (simp add: simple_machine_def store_defs built_store_def)
  have 3: "list_all (wf_transition (objects ?m)) [PRef 2, PRef 3, PRef 4]"
    by (simp add: simple_machine_def wf_transition_def has_key_def store_defs built_store_def)
  have 4: "list_all (\<lambda>t. \<not> matches (objects ?m) (state ?m) (next_state ?m) t)
             [PRef 2, PRef 3, PRef 4]"
    by (simp add: simple_machine_def matches_def py_of_next_def store_defs built_store_def)
  show ?thesis using lookup_unmatched_is_parking [OF 1 2 3 4] by simp
qed

text \<open>
  C4. The lookup is a function of the table, the current state and the wanted state, and
  it scans the transitions in the order of the table: when a transition matches and no
  transition before it does, the result is the \<^verbatim>\<open>trigger\<close> entry of that transition,
  whatever comes after it, further matching transitions included.
\<close>

theorem lookup_first_declared:
  assumes "subscript (objects m) (state_machine_table m) ''transitions'' = Inr ts"
    and "list_at (objects m) ts = Some (pre @ t # post)"
    and "list_all (wf_transition (objects m)) pre"
    and "list_all (\<lambda>p. \<not> matches (objects m) (state m) (next_state m) p) pre"
    and "matches (objects m) (state m) (next_state m) t"
  shows "lookup_trigger m = subscript (objects m) t ''trigger''"
  using assms by (simp add: lookup_trigger_def py_iter_list scan_first_match)

theorem lookup_first_declared_witness:
  "matches built_store ''ready'' (Some ''parking'') (PRef 3)
   \<and> matches built_store ''ready'' (Some ''parking'') (PRef 4)
   \<and> subscript built_store (PRef 4) ''trigger'' = Inr (PStr ''abort'')
   \<and> lookup_trigger (simple_machine\<lparr>state := ''ready'', next_state := Some ''parking''\<rparr>)
       = Inr (PStr ''park'')"
proof -
  let ?m = "simple_machine\<lparr>state := ''ready'', next_state := Some ''parking''\<rparr>"
  have 1: "subscript (objects ?m) (state_machine_table ?m) ''transitions'' = Inr (PRef 5)"
    by (simp add: simple_machine_def store_defs built_store_def)
  have 2: "list_at (objects ?m) (PRef 5) = Some ([PRef 2] @ PRef 3 # [PRef 4])"
    by (simp add: simple_machine_def store_defs built_store_def)
  have 3: "list_all (wf_transition (objects ?m)) [PRef 2]"
    by (simp add: simple_machine_def wf_transition_def has_key_def store_defs built_store_def)
  have 4: "list_all (\<lambda>p. \<not> matches (objects ?m) (state ?m) (next_state ?m) p) [PRef 2]"
    by (simp add: simple_machine_def matches_def py_of_next_def store_defs built_store_def)
  have 5: "matches (objects ?m) (state ?m) (next_state ?m) (PRef 3)"
    by (simp add: simple_machine_def matches_def py_of_next_def store_defs built_store_def)
  have 6: "matches built_store ''ready'' (Some ''parking'') (PRef 4)"
    by (simp add: matches_def py_of_next_def store_defs built_store_def)
  have 7: "subscript built_store (PRef 4) ''trigger'' = Inr (PStr ''abort'')"
    by (simp add: store_defs built_store_def)
  have 8: "subscript (objects ?m) (PRef 3) ''trigger'' = Inr (PStr ''park'')"
    by (simp add: simple_machine_def store_defs built_store_def)
  have 9: "objects ?m = built_store" by (simp add: simple_machine_def)
  show ?thesis using lookup_first_declared [OF 1 2 3 4 5] 5 6 7 8 9 by simp
qed

section \<open>The run loop\<close>

lemma run_loop_stopped: "\<not> is_running m \<Longrightarrow> run_loop A m = Some (Inr m)"
  by (subst run_loop.simps) simp

lemma run_loop_returned:
  "is_running m \<Longrightarrow> lookup_trigger m = Inr call_method \<Longrightarrow>
   select_caller A call_method (info call_method m) = Inr (caller, m1) \<Longrightarrow>
   caller m1 = (None, m2) \<Longrightarrow> run_loop A m = run_loop A m2"
  by (subst run_loop.simps) simp

lemma run_loop_raised:
  "is_running m \<Longrightarrow> lookup_trigger m = Inr call_method \<Longrightarrow>
   select_caller A call_method (info call_method m) = Inr (caller, m1) \<Longrightarrow>
   caller m1 = (Some e, m2) \<Longrightarrow> is_Exception e \<Longrightarrow>
   run_loop A m =
     Some (Inr (stop_machine (warning (''Problem calling next state: '' @ exn_text e) m2)))"
  by (subst run_loop.simps) (simp add: run_loop_stopped stop_machine_def)

lemma run_loop_returns_stopped:
  "run_loop A m = Some r \<Longrightarrow> r = Inr m' \<Longrightarrow> \<not> is_running m'"
proof (induction arbitrary: m' rule: run_loop.raw_induct[rotated 1, consumes 1])
  case (1 f A m r)
  then show ?case
    by (auto split: if_splits sum.splits prod.splits option.splits)
qed

lemma first_lookup_simple:
  "lookup_trigger (simple_machine\<lparr>is_running := True, next_state := Some ''ready''\<rparr>)
     = Inr (PStr ''get_ready'')"
  by (simp add: lookup_simple simple_machine_def)
     (simp add: store_defs built_store_def py_of_next_def)

lemma run_simple: "run simple_attrs simple_machine = Some (Inr end_machine)"
proof -
  let ?m0 = "simple_machine\<lparr>is_running := True, next_state := Some ''ready''\<rparr>"
  let ?m1 = "snd (get_ready (info (PStr ''get_ready'') ?m0))"
  let ?m2 = "snd (park (info (PStr ''park'') ?m1))"
  have s0: "select_caller simple_attrs (PStr ''get_ready'') (info (PStr ''get_ready'') ?m0)
      = Inr (get_ready, info (PStr ''get_ready'') ?m0)"
    by (simp add: select_caller_def simple_attrs_def truthy_def)
  have r0: "run_loop simple_attrs ?m0 = run_loop simple_attrs ?m1"
    by (rule run_loop_returned[OF _ first_lookup_simple s0])
       (simp_all add: get_ready_def simple_machine_def)
  have l1: "lookup_trigger ?m1 = Inr (PStr ''park'')"
    by (simp add: lookup_simple simple_machine_def get_ready_def info_def)
       (simp add: store_defs built_store_def py_of_next_def)
  have s1: "select_caller simple_attrs (PStr ''park'') (info (PStr ''park'') ?m1)
      = Inr (park, info (PStr ''park'') ?m1)"
    by (simp add: select_caller_def simple_attrs_def truthy_def)
  have r1: "run_loop simple_attrs ?m1 = run_loop simple_attrs ?m2"
    by (rule run_loop_returned[OF _ l1 s1])
       (simp_all add: get_ready_def park_def info_def simple_machine_def)
  have "\<not> is_running ?m2" by (simp add: park_def stop_machine_def)
  then have "run_loop simple_attrs ?m2 = Some (Inr ?m2)" by (rule run_loop_stopped)
  moreover have "?m2 = end_machine"
    by (simp add: end_machine_def park_def get_ready_def info_def stop_machine_def
        simple_machine_def)
  ultimately show ?thesis using r0 r1 by (simp add: run_def)
qed

text \<open>
  C8. Whenever \<^verbatim>\<open>run()\<close> returns normally, the running flag of the machine is
  \<open>False\<close>: the loop is left only through its test of \<^verbatim>\<open>is_running\<close>.
\<close>

theorem run_returns_stopped: "run A m = Some (Inr m') \<Longrightarrow> \<not> is_running m'"
  unfolding run_def by (rule run_loop_returns_stopped) auto

theorem run_returns_stopped_witness:
  "run simple_attrs simple_machine = Some (Inr end_machine) \<and> \<not> is_running end_machine"
  using run_returns_stopped [OF run_simple] run_simple by simp

text \<open>
  C2, as the code has it. When, in an iteration of the loop, the call of the behaviour
  chosen for the trigger raises an \<^verbatim>\<open>Exception\<close>, \<^verbatim>\<open>run()\<close> does not pass it on: it
  logs a warning, stops the machine, and returns with the running flag \<open>False\<close>. The
  current state, the next state and the objects of the table are as the failed call left
  them: the loop neither changes nor restores them.
\<close>

theorem run_fault_stops:
  assumes "is_running m"
    and "lookup_trigger m = Inr call_method"
    and "select_caller A call_method (info call_method m) = Inr (caller, m1)"
    and "caller m1 = (Some e, m2)"
    and "is_Exception e"
  shows "let m' = stop_machine (warning (''Problem calling next state: '' @ exn_text e) m2)
         in run_loop A m = Some (Inr m')
            \<and> \<not> is_running m'
            \<and> state m' = state m2 \<and> next_state m' = next_state m2
            \<and> objects m' = objects m2
            \<and> logged m' = logged m2 @ [LogWarning (''Problem calling next state: '' @ exn_text e)]"
  using run_loop_raised [OF assms] by (simp add: stop_machine_def warning_def)

theorem run_fault_stops_witness:
  "run_loop faulty_attrs (simple_machine\<lparr>is_running := True, next_state := Some ''ready''\<rparr>)
     = Some (Inr faulted_machine)
   \<and> \<not> is_running faulted_machine
   \<and> LogWarning ''Problem calling next state: mount not responding''
       \<in> set (logged faulted_machine)"
proof -
  let ?m0 = "simple_machine\<lparr>is_running := True, next_state := Some ''ready''\<rparr>"
  let ?m1 = "info (PStr ''get_ready'') ?m0"
  have r: "is_running ?m0" by simp
  have s: "select_caller faulty_attrs (PStr ''get_ready'') ?m1 = Inr (get_ready_failing, ?m1)"
    by (simp add: select_caller_def faulty_attrs_def truthy_def)
  have c: "get_ready_failing ?m1
      = (Some (OtherException ''mount not responding''), ?m1\<lparr>state := ''ready''\<rparr>)"
    by (simp add: get_ready_failing_def)
  have e: "is_Exception (OtherException ''mount not responding'')" by simp
  show ?thesis
    using run_fault_stops [OF r first_lookup_simple s c e]
    by (simp add: faulted_machine_def stop_machine_def warning_def info_def simple_machine_def)
qed

text \<open>
  C2, as it is stated, fails: the trigger \<^verbatim>\<open>get_ready\<close> of the small table moves the
  machine from \<^verbatim>\<open>sleeping\<close> to \<^verbatim>\<open>ready\<close> and then raises; \<^verbatim>\<open>run()\<close> returns with the
  machine stopped and the current state \<^verbatim>\<open>ready\<close>, not the \<^verbatim>\<open>sleeping\<close> it had
  before the call.
\<close>

theorem run_fault_state_changed:
  "state simple_machine = ''sleeping''
   \<and> run faulty_attrs simple_machine = Some (Inr faulted_machine)
   \<and> state faulted_machine = ''ready''"
proof -
  let ?m0 = "simple_machine\<lparr>is_running := True, next_state := Some ''ready''\<rparr>"
  let ?m1 = "info (PStr ''get_ready'') ?m0"
  have s: "select_caller faulty_attrs (PStr ''get_ready'') ?m1 = Inr (get_ready_failing, ?m1)"
    by (simp add: select_caller_def faulty_attrs_def truthy_def)
  have c: "get_ready_failing ?m1
      = (Some (OtherException ''mount not responding''), ?m1\<lparr>state := ''ready''\<rparr>)"
    by (simp add: get_ready_failing_def)
  have "run_loop faulty_attrs ?m0 =
      Some (Inr (stop_machine (warning (''Problem calling next state: ''
        @ exn_text (OtherException ''mount not responding'')) (?m1\<lparr>state := ''ready''\<rparr>))))"
    by (rule run_loop_raised [OF _ first_lookup_simple s c]) simp_all
  then show ?thesis
    by (simp add: run_def faulted_machine_def stop_machine_def warning_def info_def
        simple_machine_def)
qed

section \<open>Loading the table and the required keys\<close>

lemma check_keys_missing:
  "dict_at h table = Some d \<Longrightarrow> map_of d ''states'' = None \<or> map_of d ''transitions'' = None \<Longrightarrow>
   check_keys h table = Inl AssertionError"
  by (auto simp: check_keys_def py_contains_def dict_at_def obj_at_def split: pyval.splits option.splits pyobj.splits if_splits)

lemma init_table_missing:
  "dict_at h table = Some d \<Longrightarrow> map_of d ''states'' = None \<or> map_of d ''transitions'' = None \<Longrightarrow>
   init_table w lg h table = Inl AssertionError"
  by (simp add: init_table_def check_keys_missing)

text \<open>
  C5, as the code has it. When the file cannot be read or parsed, loading the table
  raises \<^verbatim>\<open>InvalidConfig\<close> and so does the construction of the machine. When the file
  parses to a dict that lacks \<^verbatim>\<open>states\<close> or \<^verbatim>\<open>transitions\<close>, loading returns that dict
  and it is the construction that fails, with an \<^verbatim>\<open>AssertionError\<close>; the same holds for
  a table handed over directly. In each case no machine is made.
\<close>

theorem load_failure_is_fatal:
  "(read_yaml w (state_table_file w table_id) = ReadOSError err
      \<or> read_yaml w (state_table_file w table_id) = ReadOtherError
     \<longrightarrow> (\<exists>msg. load_state_table w table_id = Inl (InvalidConfig msg)
                \<and> init w h0 (PStr table_id) = Inl (InvalidConfig msg)))
   \<and> (read_yaml w (state_table_file w table_id) = Parsed h table \<and> dict_at h table = Some d
        \<and> (map_of d ''states'' = None \<or> map_of d ''transitions'' = None)
     \<longrightarrow> load_state_table w table_id = Inr (h, table)
          \<and> init w h0 (PStr table_id) = Inl AssertionError)
   \<and> (dict_at h table = Some d
        \<and> (map_of d ''states'' = None \<or> map_of d ''transitions'' = None)
     \<longrightarrow> init w h table = Inl AssertionError)"
proof (intro conjI impI)
  assume "read_yaml w (state_table_file w table_id) = ReadOSError err
      \<or> read_yaml w (state_table_file w table_id) = ReadOtherError"
  then show "\<exists>msg. load_state_table w table_id = Inl (InvalidConfig msg)
                \<and> init w h0 (PStr table_id) = Inl (InvalidConfig msg)"
    by (auto simp: load_state_table_def init_def)
next
  assume a: "read_yaml w (state_table_file w table_id) = Parsed h table \<and> dict_at h table = Some d
        \<and> (map_of d ''states'' = None \<or> map_of d ''transitions'' = None)"
  then show "load_state_table w table_id = Inr (h, table)" by (simp add: load_state_table_def)
  with a show "init w h0 (PStr table_id) = Inl AssertionError"
    by (simp add: init_def init_table_missing)
next
  assume a: "dict_at h table = Some d
        \<and> (map_of d ''states'' = None \<or> map_of d ''transitions'' = None)"
  then obtain a' where "table = PRef a'" by (auto simp: dict_at_def obj_at_def split: pyval.splits)
  with a show "init w h table = Inl AssertionError"
    by (simp add: init_def init_table_missing)
qed

theorem load_failure_is_fatal_witness:
  "load_state_table simple_world ''other''
     = Inl (InvalidConfig ''Problem loading state table yaml file: No such file /var/panoptes/POCS/resources/state_table/other.yaml'')
   \<and> init simple_world [] (PStr ''other'')
     = Inl (InvalidConfig ''Problem loading state table yaml file: No such file /var/panoptes/POCS/resources/state_table/other.yaml'')
   \<and> load_state_table keyless_world ''simple_state_table'' = Inr (keyless_store, PRef 1)
   \<and> init keyless_world [] (PStr ''simple_state_table'') = Inl AssertionError
   \<and> init keyless_world keyless_store (PRef 1) = Inl AssertionError"
proof -
  have 1: "read_yaml simple_world (state_table_file simple_world ''other'') = ReadOSError ''No such file''"
    by (simp add: simple_world_def state_table_file_def)
  have 2: "read_yaml keyless_world (state_table_file keyless_world ''simple_state_table'')
      = Parsed keyless_store (PRef 1)"
    by (simp add: keyless_world_def)
  have 3: "dict_at keyless_store (PRef 1) = Some [(''transitions'', PRef 0)]"
    by (simp add: keyless_store_def dict_at_def obj_at_def)
  have 4: "map_of [(''transitions'', PRef 0)] ''states'' = None" by simp
  have 5: "load_state_table simple_world ''other''
     = Inl (InvalidConfig ''Problem loading state table yaml file: No such file /var/panoptes/POCS/resources/state_table/other.yaml'')"
    by (simp add: load_state_table_def simple_world_def state_table_file_def)
  show ?thesis
    using load_failure_is_fatal [of simple_world "''other''" "''No such file''" "[]" "[]" PNone "[]"]
      load_failure_is_fatal [of keyless_world "''simple_state_table''" "''''" "[]" keyless_store "PRef 1"
        "[(''transitions'', PRef 0)]"]
      1 2 3 4 5
    by simp
qed

text \<open>
  C5, as it is stated, fails: a file whose table has no \<^verbatim>\<open>states\<close> entry is loaded
  without any error, and the construction then ends with an \<^verbatim>\<open>AssertionError\<close>, which
  is not the configuration error.
\<close>

theorem load_without_states_counterexample:
  "load_state_table keyless_world ''simple_state_table'' = Inr (keyless_store, PRef 1)
   \<and> py_contains keyless_store ''states'' (PRef 1) = Inr False
   \<and> init keyless_world [] (PStr ''simple_state_table'') = Inl AssertionError"
  by (simp add: load_state_table_def keyless_world_def init_def init_table_def check_keys_def
      py_contains_def obj_at_def keyless_store_def)

section \<open>Loading a state and entering it\<close>

lemma load_module_raises:
  "resolve_name w p = Inl e \<Longrightarrow> is_Exception e \<Longrightarrow>
   \<exists>e'. load_module w p = Inl e' \<and> is_Exception e'"
  by (cases e) (auto simp: load_module_def)

text \<open>
  C6 asks that a state whose module or \<^verbatim>\<open>on_enter\<close> cannot be resolved is still
  constructed. The code does otherwise. When resolving the module raises an
  \<^verbatim>\<open>Exception\<close>, the handler logs it, and \<^verbatim>\<open>return s\<close> then raises
  \<^verbatim>\<open>UnboundLocalError\<close>, because \<^verbatim>\<open>s\<close> is first assigned after the call that failed.
  When the module is found but has no \<^verbatim>\<open>on_enter\<close>, the result is \<^verbatim>\<open>None\<close> and not a
  state.
\<close>

theorem load_state_unresolved:
  "(resolve_name w (''pocs.state.states.'' @ py_format w h table_name @ ''.'' @ py_format w h st)
      = Inl e \<and> is_Exception e
     \<longrightarrow> load_state w h table_name self st = Inl UnboundLocalError)
   \<and> (resolve_name w (''pocs.state.states.'' @ py_format w h table_name @ ''.'' @ py_format w h st)
      = Inr module \<and> map_of (mod_attrs module) ''on_enter'' = None
     \<longrightarrow> load_state w h table_name self st = Inr (self, None))"
proof (intro conjI impI)
  let ?p = "''pocs.state.states.'' @ py_format w h table_name @ ''.'' @ py_format w h st"
  assume "resolve_name w ?p = Inl e \<and> is_Exception e"
  then obtain e' where "load_module w ?p = Inl e'" "is_Exception e'"
    using load_module_raises by blast
  then show "load_state w h table_name self st = Inl UnboundLocalError"
    by (simp add: load_state_def load_state_try_def)
next
  let ?p = "''pocs.state.states.'' @ py_format w h table_name @ ''.'' @ py_format w h st"
  assume "resolve_name w ?p = Inr module \<and> map_of (mod_attrs module) ''on_enter'' = None"
  then show "load_state w h table_name self st = Inr (self, None)"
    by (simp add: load_state_def load_state_try_def load_module_def)
qed

theorem load_state_unresolved_witness:
  "load_state simple_world [] (PStr ''default'') ([], []) (PStr ''observing'') = Inl UnboundLocalError
   \<and> load_state bare_world [] (PStr ''default'') ([], []) (PStr ''observing'') = Inr (([], []), None)"
proof -
  have 1: "resolve_name simple_world (''pocs.state.states.'' @ py_format simple_world [] (PStr ''default'')
      @ ''.'' @ py_format simple_world [] (PStr ''observing'')) = Inl ImportError"
    by (simp add: simple_world_def py_format_def)
  have 2: "resolve_name bare_world (''pocs.state.states.'' @ py_format bare_world [] (PStr ''default'')
      @ ''.'' @ py_format bare_world [] (PStr ''observing'')) = Inr \<lparr>mod_attrs = []\<rparr>"
    by (simp add: bare_world_def)
  have 3: "is_Exception ImportError" by simp
  have 4: "map_of (mod_attrs \<lparr>mod_attrs = []\<rparr>) ''on_enter'' = None" by simp
  show ?thesis
    using load_state_unresolved [of simple_world "[]" "PStr ''default''" "PStr ''observing''" ImportError
        "([], [])" "\<lparr>mod_attrs = []\<rparr>"]
      load_state_unresolved [of bare_world "[]" "PStr ''default''" "PStr ''observing''" ImportError
        "([], [])" "\<lparr>mod_attrs = []\<rparr>"]
      1 2 3 4
    by simp
qed

lemma load_state_callbacks:
  "load_state w h table_name self st = Inr (self', Some s) \<Longrightarrow>
   on_enter s = [''_update_graph'', ''_update_status'', ''on_enter_'' @ py_format w h st]"
  by (auto simp: load_state_def load_state_try_def split: sum.splits option.splits if_splits)

lemma update_graph_swallows:
  "draw k m = (d, m0) \<Longrightarrow> d = None \<or> (\<exists>e. d = Some e \<and> is_Exception e) \<Longrightarrow>
   fst (update_graph k m) = None"
  by (auto simp: update_graph_def)

text \<open>
  C7, as the code has it. A state that is constructed has the enter callbacks
  \<^verbatim>\<open>_update_graph\<close>, \<^verbatim>\<open>_update_status\<close> and \<^verbatim>\<open>on_enter_<state>\<close>, in this order.
  \<^verbatim>\<open>_update_graph\<close> catches an \<^verbatim>\<open>Exception\<close> of its own work, so the status hook runs after
  it either way. \<^verbatim>\<open>_update_status\<close> catches nothing: when \<^verbatim>\<open>self.status()\<close> raises, the
  exception ends the sequence and the on-enter behaviour of the state is not called; when
  it returns, the on-enter behaviour is called third.
\<close>

theorem enter_callbacks:
  assumes "load_state w h table_name self st = Inr (self', Some s)"
    and "draw k m = (d, m0)"
    and "d = None \<or> (\<exists>e. d = Some e \<and> is_Exception e)"
  shows "on_enter s = [''_update_graph'', ''_update_status'', ''on_enter_'' @ py_format w h st]
    \<and> fst (update_graph k m) = None
    \<and> (case status k (snd (update_graph k m)) of
          (Some e, m2) \<Rightarrow>
            enter k (on_enter s) m = ((Some e, m2), [''_update_graph'', ''_update_status''])
        | (None, m2) \<Rightarrow>
            snd (enter k (on_enter s) m)
              = [''_update_graph'', ''_update_status'', ''on_enter_'' @ py_format w h st])"
proof -
  have cbs: "on_enter s = [''_update_graph'', ''_update_status'', ''on_enter_'' @ py_format w h st]"
    using assms(1) by (rule load_state_callbacks)
  have g: "fst (update_graph k m) = None" using assms(2,3) by (rule update_graph_swallows)
  obtain m1 where m1: "update_graph k m = (None, m1)" using g by (cases "update_graph k m") auto
  show ?thesis
    using cbs g m1
    by (auto simp: callback_def update_status_def split: prod.splits option.splits)
qed

theorem enter_callbacks_witness:
  "on_enter \<lparr>name = PStr ''ready'', on_enter = [''_update_graph'', ''_update_status'', ''on_enter_ready'']\<rparr>
     = [''_update_graph'', ''_update_status'', ''on_enter_ready'']
   \<and> fst (update_graph failing_hooks simple_machine) = None
   \<and> snd (enter (failing_hooks\<lparr>status := (\<lambda>m. (None, m))\<rparr>)
        [''_update_graph'', ''_update_status'', ''on_enter_ready''] simple_machine)
       = [''_update_graph'', ''_update_status'', ''on_enter_ready'']"
proof -
  let ?k = "failing_hooks\<lparr>status := (\<lambda>m. (None, m))\<rparr>"
  let ?s = "\<lparr>name = PStr ''ready'', on_enter = [''_update_graph'', ''_update_status'', ''on_enter_ready'']\<rparr>"
  have 1: "load_state simple_world [] (PStr ''default'') ([], []) (PStr ''ready'')
     = Inr (([(''on_enter_ready'', Callable ''pocs.state.states.default.ready.on_enter'')], []), Some ?s)"
    by (simp add: load_state_def load_state_try_def load_module_def simple_world_def py_format_def)
  have 2: "draw ?k simple_machine = (Some (OSError ''Read-only file system''), simple_machine)"
    by (simp add: failing_hooks_def)
  have 3: "Some (OSError ''Read-only file system'') = None
     \<or> (\<exists>e. Some (OSError ''Read-only file system'') = Some e \<and> is_Exception e)" by simp
  have 4: "update_graph ?k simple_machine = update_graph failing_hooks simple_machine"
    by (simp add: update_graph_def failing_hooks_def)
  have 5: "py_format simple_world [] (PStr ''ready'') = ''ready''" by (simp add: py_format_def)
  show ?thesis using enter_callbacks [OF 1 2 3] 4 5 by (simp add: failing_hooks_def)
qed

text \<open>
  C7, as it is stated, fails: with a status hook that raises, the callbacks called on
  entering \<^verbatim>\<open>ready\<close> are the first two only, although \<^verbatim>\<open>on_enter_ready\<close> is bound.
\<close>

theorem status_failure_skips_on_enter:
  "enter failing_hooks [''_update_graph'', ''_update_status'', ''on_enter_ready''] simple_machine
     = ((Some (OtherException ''no weather data''),
         warning ''Can't generate state graph: Read-only file system'' simple_machine),
        [''_update_graph'', ''_update_status''])
   \<and> map_of (bound simple_machine) ''on_enter_ready''
       = Some (Callable ''pocs.state.states.default.ready.on_enter'')"
  by (simp add: callback_def update_graph_def update_status_def failing_hooks_def simple_machine_def)
section \<open>Loading a transition\<close>

lemma dict_at_Some: "dict_at h t = Some d \<longleftrightarrow> (\<exists>a. t = PRef a \<and> a < length h \<and> h ! a = ODict d)"
  by (auto simp: dict_at_def obj_at_def split: pyval.splits pyobj.splits)

lemma list_at_Some: "list_at h l = Some xs \<longleftrightarrow> (\<exists>r. l = PRef r \<and> r < length h \<and> h ! r = OList xs)"
  by (auto simp: list_at_def obj_at_def split: pyval.splits pyobj.splits)

lemma keeps_itemsD:
  "keeps_items L \<Longrightarrow> list_at h v = Some xs \<Longrightarrow> L h v = Fresh zs \<Longrightarrow> zs = xs"
  unfolding keeps_items_def by (metis listified.distinct(1) listified.inject)

lemma get_or_new_list_result:
  "get_or_new_list h t k = Inr (h1, got) \<Longrightarrow>
   \<exists>d. dict_at h t = Some d \<and>
     ((map_of d k = Some got \<and> h1 = h) \<or>
      (map_of d k = None \<and> h1 = h @ [OList []] \<and> got = PRef (length h)))"
  by (auto simp: get_or_new_list_def alloc_def split: option.splits)

lemma call_listify_result:
  "call_listify L h v = (h2, c) \<Longrightarrow>
   (L h v = Same \<and> h2 = h \<and> c = v) \<or> (\<exists>xs. L h v = Fresh xs \<and> h2 = h @ [OList xs] \<and> c = PRef (length h))"
  by (auto simp: call_listify_def alloc_def split: listified.splits)

lemma insert_first_result:
  "insert_first h l x = Inr h3 \<Longrightarrow>
   \<exists>r xs. l = PRef r \<and> r < length h \<and> h ! r = OList xs \<and> h3 = h[r := OList (x # xs)]"
  by (auto simp: insert_first_def list_at_Some split: pyval.splits option.splits)

lemma set_item_result:
  "set_item h t k v = Inr h4 \<Longrightarrow>
   \<exists>a d. t = PRef a \<and> a < length h \<and> h ! a = ODict d \<and> h4 = h[a := ODict (dict_set d k v)]"
  by (auto simp: set_item_def dict_at_Some split: pyval.splits option.splits)

lemma load_transition_result:
  assumes "load_transition L h t = Inr (h', t')"
  shows "\<exists>h1 got h2 c h3. t' = t \<and> get_or_new_list h t ''conditions'' = Inr (h1, got) \<and>
     call_listify L h1 got = (h2, c) \<and> insert_first h2 c (PStr ''check_safety'') = Inr h3 \<and>
     set_item h3 t ''conditions'' c = Inr h'"
  using assms by (auto simp: load_transition_def split: sum.splits prod.splits)

lemma load_transition_step:
  assumes "load_transition L h t = Inr (h1, t1)"
  shows "t1 = t \<and> length h \<le> length h1 \<and>
    (\<exists>a r d xs. t = PRef a \<and> a < length h \<and> h ! a = ODict d \<and>
        h1 ! a = ODict (dict_set d ''conditions'' (PRef r)) \<and> r < length h1 \<and> r \<noteq> a \<and>
        h1 ! r = OList (PStr ''check_safety'' # xs) \<and>
        (r \<in> set (listed_conditions h t) \<or> length h \<le> r) \<and>
        (\<forall>b < length h. b \<noteq> a \<longrightarrow> b \<noteq> r \<longrightarrow> h1 ! b = h ! b) \<and>
        (keeps_items L \<longrightarrow>
           (\<forall>c ys. map_of d ''conditions'' = Some c \<and> list_at h c = Some ys \<longrightarrow> xs = ys) \<and>
           (map_of d ''conditions'' = None \<longrightarrow> xs = [])))"
proof -
  from load_transition_result[OF assms] obtain ha got hb c hc where
    t1: "t1 = t" and g: "get_or_new_list h t ''conditions'' = Inr (ha, got)"
    and l: "call_listify L ha got = (hb, c)"
    and i: "insert_first hb c (PStr ''check_safety'') = Inr hc"
    and s: "set_item hc t ''conditions'' c = Inr h1" by blast
  from get_or_new_list_result[OF g] obtain d where d: "dict_at h t = Some d"
    and g': "(map_of d ''conditions'' = Some got \<and> ha = h) \<or>
      (map_of d ''conditions'' = None \<and> ha = h @ [OList []] \<and> got = PRef (length h))" by blast
  from d obtain a where a: "t = PRef a" "a < length h" "h ! a = ODict d"
    by (auto simp: dict_at_Some)
  from insert_first_result[OF i] obtain r xs where r: "c = PRef r" "r < length hb" "hb ! r = OList xs"
    "hc = hb[r := OList (PStr ''check_safety'' # xs)]" by blast
  from set_item_result[OF s] a obtain d' where d': "a < length hc" "hc ! a = ODict d'"
    "h1 = hc[a := ODict (dict_set d' ''conditions'' c)]" by auto
  have len: "length h \<le> length ha" "length ha \<le> length hb" "length hb = length hc" "length hc = length h1"
    using g' call_listify_result[OF l] r d' by auto
  have ha_old: "\<forall>b < length h. ha ! b = h ! b" using g' by (auto simp: nth_append)
  have hb_old: "\<forall>b < length ha. hb ! b = ha ! b" using call_listify_result[OF l] by (auto simp: nth_append)
  have hb_a: "hb ! a = ODict d" using ha_old hb_old a len by auto
  have ra: "r \<noteq> a" using hb_a r by auto
  have d'_eq: "d' = d" using d' r ra hb_a by auto
  have fresh_or_listed: "r \<in> set (listed_conditions h t) \<or> length h \<le> r"
  proof (cases "r < length h")
    case True
    from call_listify_result[OF l] have same: "hb = ha \<and> c = got"
    proof
      assume "\<exists>xs. L ha got = Fresh xs \<and> hb = ha @ [OList xs] \<and> c = PRef (length ha)"
      then have "r = length ha" using r(1) by auto
      then show ?thesis using True len(1) by simp
    qed simp
    from g' have old: "map_of d ''conditions'' = Some got \<and> ha = h"
    proof
      assume "map_of d ''conditions'' = None \<and> ha = h @ [OList []] \<and> got = PRef (length h)"
      then have "r = length h" using same r(1) by simp
      then show ?thesis using True by simp
    qed simp
    have hr: "h ! r = OList xs" using same old r(3) by simp
    have "subscript h t ''conditions'' = Inr (PRef r)"
      using d old same r(1) by (simp add: subscript_def)
    moreover have "list_at h (PRef r) = Some xs"
      using hr True by (simp add: list_at_Some)
    ultimately have "listed_conditions h t = [r]" by (simp add: listed_conditions_def)
    then show ?thesis by simp
  next
    case False
    then show ?thesis by simp
  qed
  have hc_old: "\<forall>b < length hb. b \<noteq> r \<longrightarrow> hc ! b = hb ! b" using r(4) by simp
  have h1_old: "\<forall>b < length hc. b \<noteq> a \<longrightarrow> h1 ! b = hc ! b" using d'(3) by simp
  have frame: "\<forall>b < length h. b \<noteq> a \<longrightarrow> b \<noteq> r \<longrightarrow> h1 ! b = h ! b"
  proof (intro allI impI)
    fix b assume b: "b < length h" "b \<noteq> a" "b \<noteq> r"
    have "h1 ! b = hc ! b" using h1_old b len by simp
    also have "\<dots> = hb ! b" using hc_old b len by simp
    also have "\<dots> = ha ! b" using hb_old b len by simp
    also have "\<dots> = h ! b" using ha_old b by simp
    finally show "h1 ! b = h ! b" .
  qed
  have xs_listed: "xs = ys"
    if K: "keeps_items L" and cv: "map_of d ''conditions'' = Some v" "list_at h v = Some ys" for v ys
  proof -
    from g' cv have old: "got = v" "ha = h" by auto
    from call_listify_result[OF l] show ?thesis
    proof
      assume "L ha got = Same \<and> hb = ha \<and> c = got"
      then have "list_at h got = Some xs" using old r(1,2,3) by (auto simp: list_at_Some)
      then show ?thesis using cv old by simp
    next
      assume "\<exists>zs. L ha got = Fresh zs \<and> hb = ha @ [OList zs] \<and> c = PRef (length ha)"
      then obtain zs where zs: "L ha got = Fresh zs" "hb = ha @ [OList zs]" "r = length ha"
        using r(1) by auto
      have "xs = zs" using zs r(3) by simp
      moreover have "zs = ys" using keeps_itemsD[OF K cv(2)] zs(1) old by simp
      ultimately show ?thesis by simp
    qed
  qed
  have xs_default: "xs = []" if K: "keeps_items L" and c: "map_of d ''conditions'' = None"
  proof -
    from g' c have new: "ha = h @ [OList []]" "got = PRef (length h)" by auto
    then have lg: "list_at ha got = Some []" by (simp add: list_at_Some)
    from call_listify_result[OF l] show ?thesis
    proof
      assume "L ha got = Same \<and> hb = ha \<and> c = got"
      then have "hb ! r = OList []" using new r(1) by auto
      then show ?thesis using r(3) by simp
    next
      assume "\<exists>zs. L ha got = Fresh zs \<and> hb = ha @ [OList zs] \<and> c = PRef (length ha)"
      then obtain zs where zs: "L ha got = Fresh zs" "hb = ha @ [OList zs]" "r = length ha"
        using r(1) by auto
      have "xs = zs" using zs r(3) by simp
      moreover have "zs = []" using keeps_itemsD[OF K lg] zs(1) by simp
      ultimately show ?thesis by simp
    qed
  qed
  have A: "h1 ! a = ODict (dict_set d ''conditions'' (PRef r))"
    using d'(1,3) d'_eq r(1) by simp
  have "hc ! r = OList (PStr ''check_safety'' # xs)" using r(2,4) by simp
  then have B: "h1 ! r = OList (PStr ''check_safety'' # xs)"
    using h1_old r(2) ra len by simp
  have C: "r < length h1" using r(2) len by simp
  have D: "length h \<le> length h1" using len by simp
  show ?thesis
    apply (intro conjI)
      apply (rule t1)
     apply (rule D)
    apply (rule exI[of _ a], rule exI[of _ r], rule exI[of _ d], rule exI[of _ xs])
    using a ra A B C fresh_or_listed frame xs_listed xs_default apply blast
    done
qed

lemma map_of_dict_set: "map_of (dict_set d k v) k = Some v"
  by (induction d) auto

lemma dict_set_twice: "dict_set (dict_set d k v) k v' = dict_set d k v'"
  by (induction d) auto

lemma load_transition_on_listed:
  assumes d: "dict_at h t = Some d" and c: "map_of d ''conditions'' = Some (PRef r)"
    and ys: "list_at h (PRef r) = Some ys" and K: "keeps_items L"
  shows "\<exists>h' r'. load_transition L h t = Inr (h', t)
     \<and> dict_at h' t = Some (dict_set d ''conditions'' (PRef r'))
     \<and> list_at h' (PRef r') = Some (PStr ''check_safety'' # ys)"
proof -
  from d obtain a where a: "t = PRef a" "a < length h" "h ! a = ODict d" by (auto simp: dict_at_Some)
  from ys have r: "r < length h" "h ! r = OList ys" by (auto simp: list_at_Some)
  have ra: "r \<noteq> a" using a r by auto
  have g: "get_or_new_list h t ''conditions'' = Inr (h, PRef r)"
    using d c by (simp add: get_or_new_list_def)
  from K ys have "L h (PRef r) = Same \<or> L h (PRef r) = Fresh ys" by (auto simp: keeps_items_def)
  then show ?thesis
  proof
    assume S: "L h (PRef r) = Same"
    let ?h3 = "h[r := OList (PStr ''check_safety'' # ys)]"
    let ?h4 = "?h3[a := ODict (dict_set d ''conditions'' (PRef r))]"
    have l: "call_listify L h (PRef r) = (h, PRef r)" using S by (simp add: call_listify_def)
    have i: "insert_first h (PRef r) (PStr ''check_safety'') = Inr ?h3"
      using ys by (simp add: insert_first_def)
    have "dict_at ?h3 t = Some d" using a ra by (simp add: dict_at_Some)
    then have s: "set_item ?h3 t ''conditions'' (PRef r) = Inr ?h4"
      using a by (simp add: set_item_def)
    have "load_transition L h t = Inr (?h4, t)"
      by (simp add: load_transition_def g l i s)
    moreover have "dict_at ?h4 t = Some (dict_set d ''conditions'' (PRef r))"
      using a by (simp add: dict_at_Some)
    moreover have "list_at ?h4 (PRef r) = Some (PStr ''check_safety'' # ys)"
      using r ra by (simp add: list_at_Some)
    ultimately show ?thesis by blast
  next
    assume F: "L h (PRef r) = Fresh ys"
    let ?n = "length h"
    let ?h2 = "h @ [OList ys]"
    let ?h3 = "h @ [OList (PStr ''check_safety'' # ys)]"
    let ?h4 = "?h3[a := ODict (dict_set d ''conditions'' (PRef ?n))]"
    have l: "call_listify L h (PRef r) = (?h2, PRef ?n)"
      using F by (simp add: call_listify_def alloc_def)
    have "list_at ?h2 (PRef ?n) = Some ys" by (simp add: list_at_Some)
    then have i: "insert_first ?h2 (PRef ?n) (PStr ''check_safety'') = Inr ?h3"
      by (simp add: insert_first_def)
    have "dict_at ?h3 t = Some d" using a by (simp add: dict_at_Some nth_append)
    then have s: "set_item ?h3 t ''conditions'' (PRef ?n) = Inr ?h4"
      using a by (simp add: set_item_def)
    have "load_transition L h t = Inr (?h4, t)"
      by (simp add: load_transition_def g l i s)
    moreover have "dict_at ?h4 t = Some (dict_set d ''conditions'' (PRef ?n))"
      using a by (simp add: dict_at_Some)
    moreover have "list_at ?h4 (PRef ?n) = Some (PStr ''check_safety'' # ys)"
      using a by (simp add: list_at_Some)
    ultimately show ?thesis by blast
  qed
qed

text \<open>
  C10. \<^verbatim>\<open>_load_transition\<close> changes the dict it is given where it is and returns that
  same object: afterwards the \<^verbatim>\<open>conditions\<close> entry of the dict is a list that starts
  with \<^verbatim>\<open>'check_safety'\<close>, followed by the conditions that were listed (none when there
  was no entry). It is not idempotent: a second call on the same transition succeeds
  and leaves a list that starts with two \<^verbatim>\<open>'check_safety'\<close>. This holds whether
  \<^verbatim>\<open>listify\<close> hands a list back or copies it.
\<close>

theorem load_transition_in_place:
  assumes K: "keeps_items L" and first: "load_transition L h t = Inr (h1, t1)"
  shows "t1 = t \<and>
    (\<exists>d r xs. dict_at h t = Some d
        \<and> dict_at h1 t = Some (dict_set d ''conditions'' (PRef r))
        \<and> list_at h1 (PRef r) = Some (PStr ''check_safety'' # xs)
        \<and> (\<forall>c ys. map_of d ''conditions'' = Some c \<and> list_at h c = Some ys \<longrightarrow> xs = ys)
        \<and> (map_of d ''conditions'' = None \<longrightarrow> xs = [])
        \<and> (\<exists>h2 r2. load_transition L h1 t = Inr (h2, t)
              \<and> dict_at h2 t = Some (dict_set d ''conditions'' (PRef r2))
              \<and> list_at h2 (PRef r2)
                  = Some (PStr ''check_safety'' # PStr ''check_safety'' # xs)))"
proof -
  from load_transition_step[OF first] obtain a r d xs where
    t1: "t1 = t" and a: "t = PRef a" "a < length h" "h ! a = ODict d"
    and a1: "h1 ! a = ODict (dict_set d ''conditions'' (PRef r))"
    and r: "r < length h1" "h1 ! r = OList (PStr ''check_safety'' # xs)"
    and len: "length h \<le> length h1"
    and xs0: "keeps_items L \<longrightarrow>
           (\<forall>c ys. map_of d ''conditions'' = Some c \<and> list_at h c = Some ys \<longrightarrow> xs = ys) \<and>
           (map_of d ''conditions'' = None \<longrightarrow> xs = [])"
    by (elim conjE exE) (rule that)
  from xs0 K have
    xs1: "\<forall>c ys. map_of d ''conditions'' = Some c \<and> list_at h c = Some ys \<longrightarrow> xs = ys"
    and xs2: "map_of d ''conditions'' = None \<longrightarrow> xs = []"
    by blast+
  have d: "dict_at h t = Some d" using a by (simp add: dict_at_Some)
  have d1: "dict_at h1 t = Some (dict_set d ''conditions'' (PRef r))"
    using a a1 len by (simp add: dict_at_Some)
  have l1: "list_at h1 (PRef r) = Some (PStr ''check_safety'' # xs)"
    using r by (simp add: list_at_Some)
  from load_transition_on_listed[OF d1 map_of_dict_set l1 K]
  have again: "\<exists>h2 r2. load_transition L h1 t = Inr (h2, t)
     \<and> dict_at h2 t = Some (dict_set d ''conditions'' (PRef r2))
     \<and> list_at h2 (PRef r2) = Some (PStr ''check_safety'' # PStr ''check_safety'' # xs)"
    by (simp add: dict_set_twice)
  show ?thesis
    apply (rule conjI[OF t1])
    apply (rule exI[of _ d], rule exI[of _ r], rule exI[of _ xs])
    using d d1 l1 xs1 xs2 again apply blast
    done
qed

lemma keeps_items_in_place: "keeps_items listify_in_place"
  by (auto simp: keeps_items_def listify_in_place_def)

theorem load_transition_in_place_witness:
  "load_transition listify_in_place simple_store (PRef 2)
     = Inr (simple_store[1 := OList [PStr ''check_safety'', PStr ''is_dark'']], PRef 2)
   \<and> load_transition listify_in_place
        (simple_store[1 := OList [PStr ''check_safety'', PStr ''is_dark'']]) (PRef 2)
     = Inr (simple_store[1 := OList [PStr ''check_safety'', PStr ''check_safety'', PStr ''is_dark'']],
            PRef 2)"
proof -
  have 1: "load_transition listify_in_place simple_store (PRef 2)
     = Inr (simple_store[1 := OList [PStr ''check_safety'', PStr ''is_dark'']], PRef 2)"
    by (simp add: load_transition_def get_or_new_list_def call_listify_def listify_in_place_def
        insert_first_def set_item_def dict_at_def list_at_def obj_at_def simple_store_def)
  have 2: "load_transition listify_in_place
        (simple_store[1 := OList [PStr ''check_safety'', PStr ''is_dark'']]) (PRef 2)
     = Inr (simple_store[1 := OList [PStr ''check_safety'', PStr ''check_safety'', PStr ''is_dark'']],
            PRef 2)"
    by (simp add: load_transition_def get_or_new_list_def call_listify_def listify_in_place_def
        insert_first_def set_item_def dict_at_def list_at_def obj_at_def simple_store_def)
  show ?thesis using load_transition_in_place [OF keeps_items_in_place 1] 1 2 by simp
qed
section \<open>Construction keeps condition lists apart\<close>
























end
